theory Spec2Isabelle
  imports Main "HOL-Library.Word" "HOL-Library.Product_Lexorder"
begin

section \<open>Values handled by the request handlers\<close>

text \<open>
  The handlers of \<^verbatim>\<open>backend/app.py\<close> receive the parsed JSON body of a request
  (\<^verbatim>\<open>request.json\<close>) or URL path segments (always strings). A parsed JSON value is
  one of Python's \<^verbatim>\<open>None\<close>, \<^verbatim>\<open>bool\<close>, \<^verbatim>\<open>int\<close>, \<^verbatim>\<open>str\<close>, \<^verbatim>\<open>list\<close> and \<^verbatim>\<open>dict\<close>;
  a dict is kept as the list of its items (keys distinct, looked up with \<open>map_of\<close>).
  A string is a list of 8-bit characters, so the code points above 255 are left out.
  JSON numbers with a fraction are left out: in every branch below a \<^verbatim>\<open>float\<close> behaves as
  an \<^verbatim>\<open>int\<close> of at most 64 bits does (not a container, not a string, truthy iff
  non-zero, stored as it is).
\<close>

datatype json =
    JNull
  | JBool bool
  | JInt int
  | JStr string
  | JList "json list"
  | JObj "(string \<times> json) list"

text \<open>Exceptions that can leave a handler, and those caught inside one.\<close>

datatype py_exn =
    TypeError
  | KeyError
  | ValueError
  | InvalidId
  | OverflowError
  | InvalidDocument
  | DuplicateKeyError
  | WriteError

text \<open>Python truthiness, as used by \<^verbatim>\<open>if not data\<close> and \<^verbatim>\<open>data[field]\<close> inside \<^verbatim>\<open>all(...)\<close>.\<close>

fun truthy :: "json \<Rightarrow> bool" where
  "truthy JNull = False"
| "truthy (JBool b) = b"
| "truthy (JInt i) = (i \<noteq> 0)"
| "truthy (JStr s) = (s \<noteq> [])"
| "truthy (JList xs) = (xs \<noteq> [])"
| "truthy (JObj kvs) = (kvs \<noteq> [])"

text \<open>\<^verbatim>\<open>needle in hay\<close> for two strings: \<open>needle\<close> occurs as a contiguous run.\<close>

fun str_contains :: "string \<Rightarrow> string \<Rightarrow> bool" where
  "str_contains hay needle =
     (take (length needle) hay = needle \<or>
      (case hay of [] \<Rightarrow> False | _ # rest \<Rightarrow> str_contains rest needle))"

text \<open>
  \<^verbatim>\<open>k in v\<close> for a string key \<open>k\<close>: key membership on a dict, element membership on a
  list, substring test on a string, \<^verbatim>\<open>TypeError\<close> on anything else.
\<close>

fun py_in :: "string \<Rightarrow> json \<Rightarrow> py_exn + bool" where
  "py_in k (JObj kvs) = Inr (k \<in> fst ` set kvs)"
| "py_in k (JList xs) = Inr (JStr k \<in> set xs)"
| "py_in k (JStr s) = Inr (str_contains s k)"
| "py_in k _ = Inl TypeError"

text \<open>
  \<^verbatim>\<open>v[k]\<close> for a string key \<open>k\<close>: the value on a dict (\<^verbatim>\<open>KeyError\<close> when absent),
  \<^verbatim>\<open>TypeError\<close> on anything else (lists and strings take integer indices only).
\<close>

fun py_getitem :: "json \<Rightarrow> string \<Rightarrow> py_exn + json" where
  "py_getitem (JObj kvs) k = (case map_of kvs k of None \<Rightarrow> Inl KeyError | Some v \<Rightarrow> Inr v)"
| "py_getitem _ k = Inl TypeError"

text \<open>
  \<^verbatim>\<open>all(field in data and data[field] for field in fields)\<close>: fields are tried in order,
  the first absent or falsy one ends the test with \<^verbatim>\<open>False\<close>, and an exception raised by
  \<^verbatim>\<open>in\<close> or by the subscript leaves the generator.
\<close>

fun all_present :: "json \<Rightarrow> string list \<Rightarrow> py_exn + bool" where
  "all_present data [] = Inr True"
| "all_present data (field # fields) =
     (case py_in field data of
        Inl e \<Rightarrow> Inl e
      | Inr False \<Rightarrow> Inr False
      | Inr True \<Rightarrow>
          (case py_getitem data field of
             Inl e \<Rightarrow> Inl e
           | Inr v \<Rightarrow> if truthy v then all_present data fields else Inr False))"

text \<open>\<^verbatim>\<open>rec.get(k, default)\<close>; only ever reached with a dict.\<close>

fun py_get :: "json \<Rightarrow> string \<Rightarrow> json \<Rightarrow> py_exn + json" where
  "py_get (JObj kvs) k dflt = Inr (case map_of kvs k of None \<Rightarrow> dflt | Some v \<Rightarrow> v)"
| "py_get _ k dflt = Inl TypeError"

text \<open>
  \<^verbatim>\<open>for rec in v\<close>: the elements of a list, the one-character strings of a string, the
  keys of a dict; anything else is not iterable.
\<close>

fun py_iter :: "json \<Rightarrow> py_exn + json list" where
  "py_iter (JList xs) = Inr xs"
| "py_iter (JStr s) = Inr (map (\<lambda>c. JStr [c]) s)"
| "py_iter (JObj kvs) = Inr (map (\<lambda>kv. JStr (fst kv)) kvs)"
| "py_iter _ = Inl TypeError"

section \<open>Store identifiers\<close>

text \<open>
  \<^verbatim>\<open>bson.objectid.ObjectId\<close> is the document store's identifier type; the handlers build
  one with \<^verbatim>\<open>ObjectId(x)\<close>. The constructor is library code: given \<^verbatim>\<open>None\<close> it generates
  an identifier, which advances the process-wide generator; any other value goes to
  its \<^verbatim>\<open>__validate\<close> method: a \<^verbatim>\<open>str\<close> of length 24 is decoded with \<^verbatim>\<open>bytes.fromhex\<close>,
  raising \<^verbatim>\<open>InvalidId\<close> when that fails; a \<^verbatim>\<open>str\<close> of any other length raises
  \<^verbatim>\<open>InvalidId\<close>; any other JSON value raises \<^verbatim>\<open>TypeError\<close>. An identifier is the byte
  string so obtained, and two identifiers are equal when their bytes are.
\<close>

type_synonym byte = "8 word"
type_synonym objectid = "byte list"

definition hex_digits :: "(char \<times> nat) list" where
  "hex_digits =
     zip ''0123456789abcdef'' [0 ..< 16] @ zip ''ABCDEF'' [10 ..< 16]"

definition hexval :: "char \<Rightarrow> nat option" where
  "hexval c = map_of hex_digits c"

text \<open>\<^verbatim>\<open>Py_ISSPACE\<close>: space, tab, line feed, vertical tab, form feed, carriage return.\<close>

definition is_space :: "char \<Rightarrow> bool" where
  "is_space c = (of_char c \<in> {32, 9, 10, 11, 12, 13 :: nat})"

text \<open>
  \<^verbatim>\<open>bytes.fromhex(s)\<close>: two hexadecimal digits per byte; ASCII whitespace standing before
  a byte (or at the end) is skipped; anything else is a \<^verbatim>\<open>ValueError\<close>, here \<open>None\<close>.
\<close>

fun fromhex :: "string \<Rightarrow> byte list option" where
  "fromhex [] = Some []"
| "fromhex [c] = (if is_space c then Some [] else None)"
| "fromhex (c # d # rest) =
     (if is_space c then fromhex (d # rest)
      else (case (hexval c, hexval d) of
              (Some hi, Some lo) \<Rightarrow>
                (case fromhex rest of
                   None \<Rightarrow> None
                 | Some bs \<Rightarrow> Some (of_nat (16 * hi + lo) # bs))
            | _ \<Rightarrow> None))"

text \<open>\<^verbatim>\<open>ObjectId.__validate(oid)\<close>, reached with every argument other than \<^verbatim>\<open>None\<close>.\<close>

fun ObjectId_validate :: "json \<Rightarrow> py_exn + objectid" where
  "ObjectId_validate (JStr s) =
     (if length s = 24
      then (case fromhex s of None \<Rightarrow> Inl InvalidId | Some bs \<Rightarrow> Inr bs)
      else Inl InvalidId)"
| "ObjectId_validate _ = Inl TypeError"

text \<open>
  The generator is kept as a counter: the identifier generated at state \<open>n\<close> is the
  twelve bytes of \<open>n\<close>, and the state moves to \<open>n + 1\<close> (the real generator mixes time,
  a random value and a counter that it increments). \<open>be_bytes k n\<close> is the \<open>k\<close> low
  bytes of \<open>n\<close>, most significant first.
\<close>

fun be_bytes :: "nat \<Rightarrow> nat \<Rightarrow> byte list" where
  "be_bytes 0 n = []"
| "be_bytes (Suc k) n = be_bytes k (n div 256) @ [of_nat (n mod 256)]"

definition new_oid :: "nat \<Rightarrow> objectid" where
  "new_oid n = be_bytes 12 n"

text \<open>
  \<^verbatim>\<open>ObjectId(oid)\<close>: the constructor with the generator state it starts from and the one
  it leaves.
\<close>

definition ObjectId :: "json \<Rightarrow> nat \<Rightarrow> (py_exn + objectid) \<times> nat" where
  "ObjectId oid n =
     (if oid = JNull then (Inr (new_oid n), Suc n)
      else (ObjectId_validate oid, n))"

text \<open>
  \<^verbatim>\<open>try: ObjectId(id_string); return True  except: return False\<close>. The bare
  \<^verbatim>\<open>except\<close> catches every exception, so the result is always a boolean; the
  generator is left as the constructor left it.
\<close>

definition is_valid_objectId :: "json \<Rightarrow> nat \<Rightarrow> (py_exn + bool) \<times> nat" where
  "is_valid_objectId id_string n =
     (case ObjectId id_string n of
        (Inr _, n') \<Rightarrow> (Inr True, n')
      | (Inl _, n') \<Rightarrow> (Inr False, n'))"

text \<open>\<^verbatim>\<open>str(oid)\<close>: the bytes as lower-case hexadecimal digits.\<close>

definition hex_char :: "nat \<Rightarrow> char" where
  "hex_char n = ''0123456789abcdef'' ! (n mod 16)"

definition oid_str :: "objectid \<Rightarrow> string" where
  "oid_str bs = concat (map (\<lambda>b. [hex_char (unat b div 16), hex_char (unat b mod 16)]) bs)"

section \<open>Dates\<close>

text \<open>
  A naive \<^verbatim>\<open>datetime.datetime\<close>. Python keeps \<open>1 \<le> year \<le> 9999\<close>, the day inside its
  month and the time fields in range (\<open>valid_datetime\<close>); the order of two datetimes is
  the lexicographic order of their fields.
\<close>

record datetime =
  year :: nat
  month :: nat
  day :: nat
  hour :: nat
  minute :: nat
  second :: nat
  microsecond :: nat

definition dt_key :: "datetime \<Rightarrow> nat \<times> nat \<times> nat \<times> nat \<times> nat \<times> nat \<times> nat" where
  "dt_key t = (year t, month t, day t, hour t, minute t, second t, microsecond t)"

definition is_leap :: "nat \<Rightarrow> bool" where
  "is_leap y = (y mod 4 = 0 \<and> (y mod 100 \<noteq> 0 \<or> y mod 400 = 0))"

definition days_in_month :: "nat \<Rightarrow> nat \<Rightarrow> nat" where
  "days_in_month y m =
     (if m = 2 then (if is_leap y then 29 else 28)
      else if m = 4 \<or> m = 6 \<or> m = 9 \<or> m = 11 then 30
      else 31)"

definition valid_datetime :: "datetime \<Rightarrow> bool" where
  "valid_datetime t =
     (1 \<le> year t \<and> year t \<le> 9999 \<and> 1 \<le> month t \<and> month t \<le> 12 \<and>
      1 \<le> day t \<and> day t \<le> days_in_month (year t) (month t) \<and>
      hour t < 24 \<and> minute t < 60 \<and> second t < 60 \<and> microsecond t < 1000000)"

text \<open>
  \<^verbatim>\<open>datetime.strptime(s, '%Y-%m-%d')\<close>. The format compiles to the regular expression
  \<^verbatim>\<open>(?P<Y>\d\d\d\d)-(?P<m>1[0-2]|0[1-9]|[1-9])-(?P<d>3[0-1]|[1-2]\d|0[1-9]|[1-9]| [1-9])\<close>,
  matched at the start of the string; the alternatives of a group are tried in order.
  A string that does not match, or that continues after the match, is a
  \<^verbatim>\<open>ValueError\<close>; so is a year \<open>0\<close> or a day that the month does not have. An argument
  that is not a \<^verbatim>\<open>str\<close> is a \<^verbatim>\<open>TypeError\<close>. Among 8-bit characters \<^verbatim>\<open>\d\<close> matches
  the ten ASCII digits.
\<close>

definition is_digit :: "char \<Rightarrow> bool" where
  "is_digit c = (c \<in> set ''0123456789'')"

definition digit :: "char \<Rightarrow> nat" where
  "digit c = of_char c - 48"

fun match_Y :: "string \<Rightarrow> (nat \<times> string) option" where
  "match_Y (a # b # c # d # rest) =
     (if is_digit a \<and> is_digit b \<and> is_digit c \<and> is_digit d
      then Some (1000 * digit a + 100 * digit b + 10 * digit c + digit d, rest)
      else None)"
| "match_Y _ = None"

fun match_dash :: "string \<Rightarrow> string option" where
  "match_dash (c # rest) = (if c = CHR ''-'' then Some rest else None)"
| "match_dash [] = None"

fun match_m :: "string \<Rightarrow> (nat \<times> string) option" where
  "match_m (a # b # rest) =
     (if a = CHR ''1'' \<and> b \<in> set ''012'' then Some (10 + digit b, rest)
      else if a = CHR ''0'' \<and> b \<in> set ''123456789'' then Some (digit b, rest)
      else if a \<in> set ''123456789'' then Some (digit a, b # rest)
      else None)"
| "match_m [a] = (if a \<in> set ''123456789'' then Some (digit a, []) else None)"
| "match_m [] = None"

fun match_d :: "string \<Rightarrow> (nat \<times> string) option" where
  "match_d (a # b # rest) =
     (if a = CHR ''3'' \<and> b \<in> set ''01'' then Some (30 + digit b, rest)
      else if a \<in> set ''12'' \<and> is_digit b then Some (10 * digit a + digit b, rest)
      else if a = CHR ''0'' \<and> b \<in> set ''123456789'' then Some (digit b, rest)
      else if a \<in> set ''123456789'' then Some (digit a, b # rest)
      else if a = CHR '' '' \<and> b \<in> set ''123456789'' then Some (digit b, rest)
      else None)"
| "match_d [a] = (if a \<in> set ''123456789'' then Some (digit a, []) else None)"
| "match_d [] = None"

definition match_ymd :: "string \<Rightarrow> (nat \<times> nat \<times> nat) option" where
  "match_ymd s =
     (case match_Y s of None \<Rightarrow> None | Some (y, s1) \<Rightarrow>
      (case match_dash s1 of None \<Rightarrow> None | Some s2 \<Rightarrow>
       (case match_m s2 of None \<Rightarrow> None | Some (m, s3) \<Rightarrow>
        (case match_dash s3 of None \<Rightarrow> None | Some s4 \<Rightarrow>
         (case match_d s4 of None \<Rightarrow> None | Some (d, s5) \<Rightarrow>
          (if s5 = [] then Some (y, m, d) else None))))))"

fun strptime :: "json \<Rightarrow> py_exn + datetime" where
  "strptime (JStr s) =
     (case match_ymd s of
        None \<Rightarrow> Inl ValueError
      | Some (y, m, d) \<Rightarrow>
          if 1 \<le> y \<and> d \<le> days_in_month y m
          then Inr \<lparr>year = y, month = m, day = d,
                    hour = 0, minute = 0, second = 0, microsecond = 0\<rparr>
          else Inl ValueError)"
| "strptime _ = Inl TypeError"

text \<open>
  \<^verbatim>\<open>t + timedelta(days=1)\<close>: the same time on the next calendar day; past
  9999-12-31 Python raises \<^verbatim>\<open>OverflowError\<close> (date value out of range).
\<close>

definition add_one_day :: "datetime \<Rightarrow> py_exn + datetime" where
  "add_one_day t =
     (if day t < days_in_month (year t) (month t) then Inr (t\<lparr>day := day t + 1\<rparr>)
      else if month t < 12 then Inr (t\<lparr>month := month t + 1, day := 1\<rparr>)
      else if year t < 9999 then Inr (t\<lparr>year := year t + 1, month := 1, day := 1\<rparr>)
      else Inl OverflowError)"

text \<open>
  \<^verbatim>\<open>t.isoformat()\<close>: \<^verbatim>\<open>YYYY-MM-DDTHH:MM:SS\<close>, followed by \<^verbatim>\<open>.ffffff\<close> when the
  microsecond is not zero. \<open>zpad w n\<close> is the \<open>w\<close> low decimal digits of \<open>n\<close>, which is
  \<^verbatim>\<open>'%0wd' % n\<close> for the fields of a valid datetime.
\<close>

definition digit_char :: "nat \<Rightarrow> char" where
  "digit_char n = ''0123456789'' ! (n mod 10)"

fun zpad :: "nat \<Rightarrow> nat \<Rightarrow> string" where
  "zpad 0 n = []"
| "zpad (Suc w) n = zpad w (n div 10) @ [digit_char n]"

definition isoformat :: "datetime \<Rightarrow> string" where
  "isoformat t =
     zpad 4 (year t) @ ''-'' @ zpad 2 (month t) @ ''-'' @ zpad 2 (day t) @ ''T'' @
     zpad 2 (hour t) @ '':'' @ zpad 2 (minute t) @ '':'' @ zpad 2 (second t) @
     (if microsecond t = 0 then [] else ''.'' @ zpad 6 (microsecond t))"

section \<open>The document store\<close>

text \<open>
  Three collections. A student or course document is the JSON object that was inserted
  together with its \<^verbatim>\<open>_id\<close>, which is either an identifier the store generated or the
  JSON value the request supplied under \<^verbatim>\<open>_id\<close>. An attendance document is only ever
  written by the upsert of \<^verbatim>\<open>mark_attendance\<close> and has the fields that upsert writes.
  The state of the identifier generator is kept with the collections; the identifiers
  the store assigns on an upsert are drawn from it too, and generated identifiers are
  taken to be new. A collection is listed in insertion order.
\<close>

datatype id_val = IdOid objectid | IdJson json

record doc =
  doc_id :: id_val
  doc_fields :: "(string \<times> json) list"

record attendance_rec =
  att_id :: objectid
  att_student_id :: objectid
  att_course_id :: objectid
  att_date :: datetime
  att_status :: json
  att_notes :: json

record db =
  students_collection :: "doc list"
  courses_collection :: "doc list"
  attendance_collection :: "attendance_rec list"
  oid_counter :: nat

text \<open>
  What the driver raises when it cannot encode a value as BSON, before anything is
  sent to the store: an integer outside signed 64 bits is an \<^verbatim>\<open>OverflowError\<close>, a
  dict key holding the NUL character an \<^verbatim>\<open>InvalidDocument\<close>; elements are encoded in
  order and the first failure is the one raised. Every string encodes. The store is
  taken to accept what the driver encodes.
\<close>

fun first_error :: "py_exn option list \<Rightarrow> py_exn option" where
  "first_error [] = None"
| "first_error (None # es) = first_error es"
| "first_error (Some e # es) = Some e"

fun bson_error :: "json \<Rightarrow> py_exn option" where
  "bson_error (JInt i) =
     (if - (2 ^ 63) \<le> i \<and> i < 2 ^ 63 then None else Some OverflowError)"
| "bson_error (JList xs) = first_error (map bson_error xs)"
| "bson_error (JObj kvs) =
     first_error (map (\<lambda>kv. if CHR 0x00 \<in> set (fst kv) then Some InvalidDocument
                            else bson_error (snd kv)) kvs)"
| "bson_error _ = None"

text \<open>\<^verbatim>\<open>collection.find_one({"_id": oid})\<close>\<close>

definition find_one_by_id :: "doc list \<Rightarrow> objectid \<Rightarrow> doc option" where
  "find_one_by_id coll oid = find (\<lambda>d. doc_id d = IdOid oid) coll"

text \<open>
  \<^verbatim>\<open>collection.find_one({field: v})\<close> for a value \<open>v\<close> taken from the request. Which
  document answers, if any, is decided by the store's query language, which is not part
  of the program: a dict \<open>v\<close> is read as an operator expression, a stored array matches
  on its elements, and the driver raises when it cannot encode \<open>v\<close>. The handler only
  branches on the answer, so the lookup is a parameter of the handler: given the
  collection, the field and the value it returns the exception raised or the document
  found, if any.
\<close>

type_synonym field_lookup = "doc list \<Rightarrow> string \<Rightarrow> json \<Rightarrow> py_exn + doc option"

text \<open>
  \<^verbatim>\<open>collection.insert_one(data)\<close>: the driver adds a generated \<^verbatim>\<open>_id\<close> unless the
  document carries one, then encodes the document; the store refuses an array as
  \<^verbatim>\<open>_id\<close> and an \<^verbatim>\<open>_id\<close> that is already in use. Returns the exception or the
  inserted identifier with the collection, and the generator state.
\<close>

definition insert_one ::
  "doc list \<Rightarrow> nat \<Rightarrow> (string \<times> json) list \<Rightarrow> (py_exn + id_val \<times> doc list) \<times> nat" where
  "insert_one coll n data =
     (case map_of data ''_id'' of
        None \<Rightarrow>
          (case bson_error (JObj data) of
             Some e \<Rightarrow> (Inl e, Suc n)
           | None \<Rightarrow>
               (Inr (IdOid (new_oid n),
                     coll @ [\<lparr>doc_id = IdOid (new_oid n), doc_fields = data\<rparr>]),
                Suc n))
      | Some v \<Rightarrow>
          (case bson_error (JObj data) of
             Some e \<Rightarrow> (Inl e, n)
           | None \<Rightarrow>
               (case v of
                  JList _ \<Rightarrow> (Inl WriteError, n)
                | _ \<Rightarrow>
                    if IdJson v \<in> doc_id ` set coll then (Inl DuplicateKeyError, n)
                    else (Inr (IdJson v,
                               coll @ [\<lparr>doc_id = IdJson v,
                                        doc_fields =
                                          filter (\<lambda>kv. fst kv \<noteq> ''_id'') data\<rparr>]),
                          n))))"

text \<open>
  The filter of the upsert: \<^verbatim>\<open>{"student_id": sid, "course_id": cid, "date": dt}\<close>.
\<close>

definition triple :: "attendance_rec \<Rightarrow> objectid \<times> objectid \<times> datetime" where
  "triple r = (att_student_id r, att_course_id r, att_date r)"

fun update_first :: "('a \<Rightarrow> bool) \<Rightarrow> ('a \<Rightarrow> 'a) \<Rightarrow> 'a list \<Rightarrow> 'a list" where
  "update_first P f [] = []"
| "update_first P f (x # xs) = (if P x then f x # xs else x # update_first P f xs)"

text \<open>
  What the store does with an upsert it has received: the first document matching the
  filter gets the two fields set; when none matches, a document made of the filter's
  fields and the two set fields is inserted under a generated \<^verbatim>\<open>_id\<close>.
\<close>

definition apply_upsert ::
  "attendance_rec list \<Rightarrow> nat \<Rightarrow> objectid \<times> objectid \<times> datetime \<Rightarrow> json \<Rightarrow> json
     \<Rightarrow> attendance_rec list \<times> nat" where
  "apply_upsert coll n key st nt =
     (if \<exists>r \<in> set coll. triple r = key
      then (update_first (\<lambda>r. triple r = key)
              (\<lambda>r. r\<lparr>att_status := st, att_notes := nt\<rparr>) coll, n)
      else (coll @ [\<lparr>att_id = new_oid n,
                      att_student_id = fst key,
                      att_course_id = fst (snd key),
                      att_date = snd (snd key),
                      att_status = st,
                      att_notes = nt\<rparr>],
            Suc n))"

text \<open>
  \<^verbatim>\<open>attendance_collection.update_one(filter, {"$set": {"status": st, "notes": nt}},
  upsert=True)\<close>: the driver encodes the command, status before notes, and raises when
  it cannot; nothing is written then. Otherwise the store applies the upsert.
\<close>

definition update_one_upsert ::
  "attendance_rec list \<Rightarrow> nat \<Rightarrow> objectid \<times> objectid \<times> datetime \<Rightarrow> json \<Rightarrow> json
     \<Rightarrow> py_exn + attendance_rec list \<times> nat" where
  "update_one_upsert coll n key st nt =
     (case bson_error st of
        Some e \<Rightarrow> Inl e
      | None \<Rightarrow>
          (case bson_error nt of
             Some e \<Rightarrow> Inl e
           | None \<Rightarrow> Inr (apply_upsert coll n key st nt)))"

section \<open>Responses\<close>

text \<open>
  A response is a status code and a JSON body. An error body is \<^verbatim>\<open>{"error": msg}\<close>;
  \<open>MsgF p v\<close> is the f-string \<^verbatim>\<open>f"p{v}"\<close>, the text \<open>p\<close> followed by \<^verbatim>\<open>str(v)\<close>.
  \<open>Created\<close> is the 201 of a create (the stored fields with \<^verbatim>\<open>_id\<close> set to the string
  of the inserted identifier), \<open>Records\<close> the 200 of an attendance listing, \<open>Saved\<close>
  the 200 of \<^verbatim>\<open>mark_attendance\<close> (\<^verbatim>\<open>"Attendance saved successfully"\<close> and the
  processed records).
\<close>

datatype msg = Msg string | MsgF string json

record attendance_view =
  v_id :: string
  v_student_id :: string
  v_course_id :: string
  v_date :: string
  v_status :: json
  v_notes :: json

record processed_rec =
  p_student_id :: json
  p_course_id :: json
  p_date :: string
  p_status :: json
  p_notes :: json

datatype response =
    Error nat msg
  | Created id_val "(string \<times> json) list"
  | Records "attendance_view list"
  | Saved "processed_rec list"

fun status_code :: "response \<Rightarrow> nat" where
  "status_code (Error code m) = code"
| "status_code (Created i data) = 201"
| "status_code (Records rs) = 200"
| "status_code (Saved ps) = 200"

section \<open>Request handlers\<close>

text \<open>
  A handler takes the store and its input and returns the store with either the
  response or the exception that left the handler (which the framework answers with
  a 500). Writes made before an exception or an early \<^verbatim>\<open>return\<close> stay in the store.
  Every \<^verbatim>\<open>ObjectId(...)\<close> and \<^verbatim>\<open>is_valid_objectId(...)\<close> call of a handler is made on a
  URL segment or on a value that has passed a truthiness test, hence never on
  \<^verbatim>\<open>None\<close>, the one argument that moves the generator; the handlers keep the result of
  these calls.
\<close>

subsection \<open>\<^verbatim>\<open>POST /students\<close>\<close>

definition add_student :: "field_lookup \<Rightarrow> db \<Rightarrow> json \<Rightarrow> db \<times> (py_exn + response)" where
  "add_student find_one s data =
     (if \<not> truthy data then (s, Inr (Error 400 (Msg ''No data provided'')))
      else
        (case all_present data [''student_id'', ''first_name'', ''last_name'', ''email''] of
           Inl e \<Rightarrow> (s, Inl e)
         | Inr False \<Rightarrow>
             (s, Inr (Error 400
                (Msg ''Missing required fields: student_id, first_name, last_name, email'')))
         | Inr True \<Rightarrow>
             (case py_getitem data ''student_id'' of
                Inl e \<Rightarrow> (s, Inl e)
              | Inr sid \<Rightarrow>
                  (case find_one (students_collection s) ''student_id'' sid of
                     Inl e \<Rightarrow> (s, Inl e)
                   | Inr (Some _) \<Rightarrow>
                       (s, Inr (Error 409 (Msg ''Student with this ID already exists'')))
                   | Inr None \<Rightarrow>
                       (case py_getitem data ''email'' of
                          Inl e \<Rightarrow> (s, Inl e)
                        | Inr email \<Rightarrow>
                            (case find_one (students_collection s) ''email'' email of
                               Inl e \<Rightarrow> (s, Inl e)
                             | Inr (Some _) \<Rightarrow>
                                 (s, Inr (Error 409
                                    (Msg ''Student with this email already exists'')))
                             | Inr None \<Rightarrow>
                                 (case data of
                                    JObj kvs \<Rightarrow>
                                      (case insert_one (students_collection s)
                                              (oid_counter s) kvs of
                                         (Inl e, n) \<Rightarrow> (s\<lparr>oid_counter := n\<rparr>, Inl e)
                                       | (Inr (i, coll), n) \<Rightarrow>
                                           (s\<lparr>students_collection := coll,
                                              oid_counter := n\<rparr>,
                                            Inr (Created i
                                              (filter (\<lambda>kv. fst kv \<noteq> ''_id'') kvs))))
                                  | _ \<Rightarrow> (s, Inl TypeError))))))))"

subsection \<open>\<^verbatim>\<open>GET /attendance\<close> and \<^verbatim>\<open>GET /attendance/<course_id>/<date_str>\<close>\<close>

text \<open>The four stringified fields of a listed record; status and notes as stored.\<close>

definition render :: "attendance_rec \<Rightarrow> attendance_view" where
  "render r =
     \<lparr>v_id = oid_str (att_id r),
      v_student_id = oid_str (att_student_id r),
      v_course_id = oid_str (att_course_id r),
      v_date = isoformat (att_date r),
      v_status = att_status r,
      v_notes = att_notes r\<rparr>"

definition get_all_attendance :: "db \<Rightarrow> py_exn + response" where
  "get_all_attendance s = Inr (Records (map render (attendance_collection s)))"

text \<open>
  The filter \<^verbatim>\<open>{"course_id": cid, "date": {"$gte": start, "$lt": end}}\<close>.
\<close>

definition in_course_and_range ::
  "objectid \<Rightarrow> datetime \<Rightarrow> datetime \<Rightarrow> attendance_rec \<Rightarrow> bool" where
  "in_course_and_range cid start end r =
     (att_course_id r = cid \<and> dt_key start \<le> dt_key (att_date r)
      \<and> dt_key (att_date r) < dt_key end)"

text \<open>The body of the \<^verbatim>\<open>try\<close> block of the listing by course and date.\<close>

definition list_by_course_and_date :: "db \<Rightarrow> string \<Rightarrow> string \<Rightarrow> py_exn + response" where
  "list_by_course_and_date s course_id date_str =
     (case strptime (JStr date_str) of
        Inl e \<Rightarrow> Inl e
      | Inr start \<Rightarrow>
          (case add_one_day start of
             Inl e \<Rightarrow> Inl e
           | Inr end \<Rightarrow>
               (case fst (ObjectId (JStr course_id) (oid_counter s)) of
                  Inl e \<Rightarrow> Inl e
                | Inr cid \<Rightarrow>
                    Inr (Records (map render
                      (filter (in_course_and_range cid start end)
                         (attendance_collection s)))))))"

definition get_attendance_by_course_and_date ::
  "db \<Rightarrow> string \<Rightarrow> string \<Rightarrow> py_exn + response" where
  "get_attendance_by_course_and_date s course_id date_str =
     (case fst (is_valid_objectId (JStr course_id) (oid_counter s)) of
        Inl e \<Rightarrow> Inl e
      | Inr False \<Rightarrow> Inr (Error 400 (Msg ''Invalid course_id format''))
      | Inr True \<Rightarrow>
          (case list_by_course_and_date s course_id date_str of
             Inl e \<Rightarrow>
               if e = ValueError
               then Inr (Error 400 (Msg ''Invalid date format. Use YYYY-MM-DD''))
               else Inl e
           | Inr resp \<Rightarrow> Inr resp))"

subsection \<open>\<^verbatim>\<open>POST /attendance\<close>\<close>

text \<open>
  The body of the \<^verbatim>\<open>for rec in data['records']\<close> loop for one entry: an exception, an
  early \<^verbatim>\<open>return\<close> with an error response, or the store after the upsert together with
  the entry appended to \<^verbatim>\<open>processed\<close>. Every check precedes the only write, and a
  write that raises stores nothing.
\<close>

definition mark_one_record ::
  "json \<Rightarrow> datetime \<Rightarrow> json \<Rightarrow> db \<Rightarrow> py_exn + (response + db \<times> processed_rec)" where
  "mark_one_record course_id attendance_date rec s =
     (case all_present rec [''student_id'', ''status''] of
        Inl e \<Rightarrow> Inl e
      | Inr False \<Rightarrow>
          Inr (Inl (Error 400 (Msg ''Each record must include student_id and status'')))
      | Inr True \<Rightarrow>
     (case py_getitem rec ''student_id'' of
        Inl e \<Rightarrow> Inl e
      | Inr student_id \<Rightarrow>
     (case fst (is_valid_objectId student_id (oid_counter s)) of
        Inl e \<Rightarrow> Inl e
      | Inr False \<Rightarrow> Inr (Inl (Error 400 (MsgF ''Invalid student_id: '' student_id)))
      | Inr True \<Rightarrow>
     (case fst (ObjectId student_id (oid_counter s)) of
        Inl e \<Rightarrow> Inl e
      | Inr sid \<Rightarrow>
     (case find_one_by_id (students_collection s) sid of
        None \<Rightarrow> Inr (Inl (Error 404 (MsgF ''Student not found: '' student_id)))
      | Some _ \<Rightarrow>
     (case fst (ObjectId course_id (oid_counter s)) of
        Inl e \<Rightarrow> Inl e
      | Inr cid \<Rightarrow>
     (case find_one_by_id (courses_collection s) cid of
        None \<Rightarrow> Inr (Inl (Error 404 (MsgF ''Course not found: '' course_id)))
      | Some _ \<Rightarrow>
     (case py_getitem rec ''status'' of
        Inl e \<Rightarrow> Inl e
      | Inr st \<Rightarrow>
     (case py_get rec ''notes'' (JStr []) of
        Inl e \<Rightarrow> Inl e
      | Inr nt \<Rightarrow>
          (case update_one_upsert (attendance_collection s) (oid_counter s)
                  (sid, cid, attendance_date) st nt of
             Inl e \<Rightarrow> Inl e
           | Inr (coll, n) \<Rightarrow>
               Inr (Inr (s\<lparr>attendance_collection := coll, oid_counter := n\<rparr>,
                         \<lparr>p_student_id = student_id,
                          p_course_id = course_id,
                          p_date = isoformat attendance_date,
                          p_status = st,
                          p_notes = nt\<rparr>))))))))))))"

text \<open>The loop: entries in input order, stopping at the first that does not succeed.\<close>

fun mark_records ::
  "json \<Rightarrow> datetime \<Rightarrow> json list \<Rightarrow> db \<Rightarrow> processed_rec list \<Rightarrow> db \<times> (py_exn + response)"
where
  "mark_records course_id attendance_date [] s processed = (s, Inr (Saved processed))"
| "mark_records course_id attendance_date (rec # recs) s processed =
     (case mark_one_record course_id attendance_date rec s of
        Inl e \<Rightarrow> (s, Inl e)
      | Inr (Inl resp) \<Rightarrow> (s, Inr resp)
      | Inr (Inr (s', p)) \<Rightarrow>
          mark_records course_id attendance_date recs s' (processed @ [p]))"

definition mark_attendance :: "db \<Rightarrow> json \<Rightarrow> db \<times> (py_exn + response)" where
  "mark_attendance s data =
     (if \<not> truthy data then (s, Inr (Error 400 (Msg ''No data provided'')))
      else
     (case all_present data [''course_id'', ''date'', ''records''] of
        Inl e \<Rightarrow> (s, Inl e)
      | Inr False \<Rightarrow>
          (s, Inr (Error 400 (Msg ''Missing required fields: course_id, date, records'')))
      | Inr True \<Rightarrow>
     (case py_getitem data ''course_id'' of
        Inl e \<Rightarrow> (s, Inl e)
      | Inr course_id \<Rightarrow>
     (case fst (is_valid_objectId course_id (oid_counter s)) of
        Inl e \<Rightarrow> (s, Inl e)
      | Inr False \<Rightarrow> (s, Inr (Error 400 (Msg ''Invalid course_id'')))
      | Inr True \<Rightarrow>
     (case py_getitem data ''date'' of
        Inl e \<Rightarrow> (s, Inl e)
      | Inr date \<Rightarrow>
     (case strptime date of
        Inl e \<Rightarrow>
          if e = ValueError
          then (s, Inr (Error 400 (Msg ''Invalid date format. Use YYYY-MM-DD'')))
          else (s, Inl e)
      | Inr attendance_date \<Rightarrow>
     (case py_getitem data ''records'' of
        Inl e \<Rightarrow> (s, Inl e)
      | Inr records \<Rightarrow>
     (case py_iter records of
        Inl e \<Rightarrow> (s, Inl e)
      | Inr recs \<Rightarrow> mark_records course_id attendance_date recs s []))))))))"

section \<open>Vocabulary of the properties\<close>

text \<open>A field is present in a JSON object when the key is there and its value is truthy.\<close>

definition has_field :: "(string \<times> json) list \<Rightarrow> string \<Rightarrow> bool" where
  "has_field kvs k = (case map_of kvs k of None \<Rightarrow> False | Some v \<Rightarrow> truthy v)"

text \<open>
  The identifier form the specification names: a string of exactly 24 hexadecimal
  digits.
\<close>

definition well_formed_id :: "json \<Rightarrow> bool" where
  "well_formed_id v =
     (case v of
        JStr s \<Rightarrow> length s = 24 \<and> list_all (\<lambda>c. hexval c \<noteq> None) s
      | _ \<Rightarrow> False)"

section \<open>Sample data\<close>

text \<open>
  A store with one student and one course and no attendance yet, and the two
  identifier strings under which they are known; used by the closed instances below.
\<close>

definition sample_student :: string where
  "sample_student = ''507f1f77bcf86cd799439011''"

definition sample_course :: string where
  "sample_course = ''507f191e810c19729de860ea''"

text \<open>A string of 24 characters, two of them spaces, that is not an identifier.\<close>

definition spaced_id :: string where
  "spaced_id = ''507f1f77 bcf86cd7 994390''"

definition sample_student_oid :: objectid where
  "sample_student_oid = [80, 127, 31, 119, 188, 248, 108, 215, 153, 67, 144, 17]"

definition sample_course_oid :: objectid where
  "sample_course_oid = [80, 127, 25, 30, 129, 12, 25, 114, 157, 232, 96, 234]"

text \<open>A well-formed identifier that names neither a student nor a course of the sample.\<close>

definition unknown_id :: string where
  "unknown_id = ''507f1f77bcf86cd799439012''"

definition unknown_oid :: objectid where
  "unknown_oid = [80, 127, 31, 119, 188, 248, 108, 215, 153, 67, 144, 18]"

definition sample_day :: datetime where
  "sample_day =
     \<lparr>year = 2024, month = 3, day = 5, hour = 0, minute = 0, second = 0, microsecond = 0\<rparr>"

text \<open>
  A lookup that finds the first document whose field holds the queried value. This is
  the store's answer when the value is a string and the stored fields hold strings, as
  in the sample.
\<close>

definition equality_lookup :: field_lookup where
  "equality_lookup coll field v =
     Inr (find (\<lambda>d. map_of (doc_fields d) field = Some v) coll)"

definition sample_db :: db where
  "sample_db =
     \<lparr>students_collection =
        [\<lparr>doc_id = IdOid sample_student_oid,
          doc_fields = [(''student_id'', JStr ''S1''), (''first_name'', JStr ''Ada''),
                        (''last_name'', JStr ''Lovelace''), (''email'', JStr ''ada@example.org'')]\<rparr>],
      courses_collection =
        [\<lparr>doc_id = IdOid sample_course_oid,
          doc_fields = [(''course_code'', JStr ''CS101''), (''course_name'', JStr ''Logic'')]\<rparr>],
      attendance_collection = [],
      oid_counter = 0\<rparr>"

section \<open>Properties\<close>

subsection \<open>Helper facts about the Python operations\<close>

lemma all_present_obj: "all_present (JObj kvs) fs = Inr (list_all (has_field kvs) fs)"
proof (induction fs)
  case Nil
  show ?case by simp
next
  case (Cons f fs)
  show ?case
  proof (cases "map_of kvs f")
    case None
    then have "f \<notin> fst ` set kvs" by (simp add: map_of_eq_None_iff)
    with None show ?thesis by (simp add: has_field_def)
  next
    case (Some v)
    then have "f \<in> fst ` set kvs" by (metis map_of_eq_None_iff option.distinct(1))
    with Some Cons.IH show ?thesis by (simp add: has_field_def)
  qed
qed

declare all_present.simps [simp del]

lemma has_field_Some: "has_field r k \<Longrightarrow> \<exists>v. map_of r k = Some v \<and> truthy v"
  by (auto simp add: has_field_def split: option.splits)

lemma truthy_not_None: "truthy x \<Longrightarrow> x \<noteq> JNull"
  by auto

lemma strptime_str_error: "strptime (JStr d) = Inl e \<Longrightarrow> e = ValueError"
  by (auto split: option.splits if_splits)

subsection \<open>The identifier constructor and the generator\<close>

lemma ObjectId_not_None: "x \<noteq> JNull \<Longrightarrow> ObjectId x n = (ObjectId_validate x, n)"
  by (simp add: ObjectId_def)


lemma is_valid_objectId_not_None:
  "x \<noteq> JNull \<Longrightarrow>
     is_valid_objectId x n =
       (Inr (case ObjectId_validate x of Inl _ \<Rightarrow> False | Inr _ \<Rightarrow> True), n)"
  by (simp add: is_valid_objectId_def ObjectId_not_None split: sum.splits)

lemma is_valid_objectId_str:
  "is_valid_objectId (JStr s) n = (Inr (length s = 24 \<and> fromhex s \<noteq> None), n)"
  by (auto simp add: is_valid_objectId_not_None split: option.splits)

lemma hexval_not_space: "hexval c \<noteq> None \<Longrightarrow> \<not> is_space c"
proof -
  have "\<forall>c \<in> set (map fst hex_digits). \<not> is_space c" by code_simp
  moreover assume "hexval c \<noteq> None"
  then have "c \<in> set (map fst hex_digits)"
    by (metis hexval_def map_of_eq_None_iff set_map)
  ultimately show ?thesis by blast
qed

lemma fromhex_no_space:
  "\<forall>c\<in>set s. \<not> is_space c \<Longrightarrow>
     (fromhex s \<noteq> None) = (even (length s) \<and> (\<forall>c\<in>set s. hexval c \<noteq> None))"
  by (induction s rule: fromhex.induct) (auto split: option.splits)

lemma is_valid_objectId_no_space:
  assumes "\<forall>c\<in>set s. \<not> is_space c"
  shows "is_valid_objectId (JStr s) n =
           (Inr (length s = 24 \<and> (\<forall>c\<in>set s. hexval c \<noteq> None)), n)"
  unfolding is_valid_objectId_str using fromhex_no_space [OF assms] by auto

lemma well_formed_id_validate:
  assumes "well_formed_id v"
  shows "\<exists>s oid. v = JStr s \<and> length s = 24 \<and> ObjectId_validate v = Inr oid"
proof -
  from assms obtain s where s: "v = JStr s" "length s = 24" "\<forall>c\<in>set s. hexval c \<noteq> None"
    by (auto simp add: well_formed_id_def list_all_iff split: json.splits)
  then have "\<forall>c\<in>set s. \<not> is_space c" using hexval_not_space by blast
  from fromhex_no_space [OF this] s have "fromhex s \<noteq> None" by simp
  with s show ?thesis by auto
qed


lemma sample_student_ObjectId: "ObjectId_validate (JStr sample_student) = Inr sample_student_oid"
  by code_simp

lemma sample_course_ObjectId: "ObjectId_validate (JStr sample_course) = Inr sample_course_oid"
  by code_simp

lemma unknown_id_ObjectId: "ObjectId_validate (JStr unknown_id) = Inr unknown_oid"
  by code_simp


lemma sample_date: "strptime (JStr ''2024-03-05'') = Inr sample_day"
  by (simp add: match_ymd_def is_digit_def digit_def days_in_month_def is_leap_def
        sample_day_def)

lemma sample_db_student:
  "find_one_by_id (students_collection sample_db) sample_student_oid \<noteq> None"
  by (simp add: find_one_by_id_def sample_db_def)

lemma sample_db_course:
  "find_one_by_id (courses_collection sample_db) sample_course_oid \<noteq> None"
  by (simp add: find_one_by_id_def sample_db_def)

lemma sample_db_unknown:
  "find_one_by_id (students_collection sample_db) unknown_oid = None"
  "find_one_by_id (courses_collection sample_db) unknown_oid = None"
  by (simp_all add: find_one_by_id_def sample_db_def sample_student_oid_def
        sample_course_oid_def unknown_oid_def)

lemma sample_db_attendance:
  "attendance_collection sample_db = []" "oid_counter sample_db = 0"
  by (simp_all add: sample_db_def)

subsection \<open>The identifier validator\<close>




text \<open>
  C3. The claim is that the validator returns true if and only if the string is 24
  hexadecimal digits. The validator accepts the 24-character string
  \<^verbatim>\<open>507f1f77 bcf86cd7 994390\<close>, which holds two spaces: \<^verbatim>\<open>bytes.fromhex\<close> skips
  whitespace between bytes.
\<close>

theorem is_valid_objectId_accepts_whitespace:
  "is_valid_objectId (JStr ''507f1f77 bcf86cd7 994390'') n = (Inr True, n)
   \<and> length ''507f1f77 bcf86cd7 994390'' = 24
   \<and> hexval (CHR '' '') = None"
proof -
  have "fromhex ''507f1f77 bcf86cd7 994390'' \<noteq> None" by code_simp
  moreover have "hexval (CHR '' '') = None" by code_simp
  ultimately show ?thesis by (simp add: is_valid_objectId_str)
qed

subsection \<open>Creating a student\<close>

text \<open>
  C4. When the four required fields of a student-create request are present and
  non-empty, the handler looks up \<^verbatim>\<open>student_id\<close> first and \<^verbatim>\<open>email\<close> second, whatever
  the store's way of matching is. When the first lookup finds a document, the answer is
  409 "Student with this ID already exists" (whatever the second lookup would find);
  when the first finds none and the second finds a document, the answer is 409
  "Student with this email already exists". In both cases the store is returned
  unchanged: nothing is inserted.
\<close>

theorem add_student_conflict:
  assumes "\<forall>f \<in> set [''student_id'', ''first_name'', ''last_name'', ''email'']. has_field kvs f"
    and "map_of kvs ''student_id'' = Some sid"
    and "map_of kvs ''email'' = Some email"
  shows "(\<forall>d. find_one (students_collection s) ''student_id'' sid = Inr (Some d) \<longrightarrow>
            add_student find_one s (JObj kvs) =
              (s, Inr (Error 409 (Msg ''Student with this ID already exists''))))
       \<and> (find_one (students_collection s) ''student_id'' sid = Inr None \<longrightarrow>
          (\<forall>d. find_one (students_collection s) ''email'' email = Inr (Some d) \<longrightarrow>
            add_student find_one s (JObj kvs) =
              (s, Inr (Error 409 (Msg ''Student with this email already exists'')))))"
proof -
  from assms(2) have ne: "kvs \<noteq> []" by auto
  have ap: "all_present (JObj kvs) [''student_id'', ''first_name'', ''last_name'', ''email'']
              = Inr True"
    unfolding all_present_obj using assms(1) by simp
  show ?thesis
    using ne assms(2,3) by (auto simp add: add_student_def ap)
qed

theorem add_student_conflict_witness:
  "add_student equality_lookup sample_db
     (JObj [(''student_id'', JStr ''S1''), (''first_name'', JStr ''Alan''),
            (''last_name'', JStr ''Turing''), (''email'', JStr ''ada@example.org'')]) =
     (sample_db, Inr (Error 409 (Msg ''Student with this ID already exists'')))
   \<and> add_student equality_lookup sample_db
     (JObj [(''student_id'', JStr ''S2''), (''first_name'', JStr ''Alan''),
            (''last_name'', JStr ''Turing''), (''email'', JStr ''ada@example.org'')]) =
     (sample_db, Inr (Error 409 (Msg ''Student with this email already exists'')))"
proof -
  have 1: "\<exists>d. equality_lookup (students_collection sample_db) ''student_id'' (JStr ''S1'')
             = Inr (Some d)"
    by (simp add: equality_lookup_def sample_db_def)
  have 2: "equality_lookup (students_collection sample_db) ''student_id'' (JStr ''S2'')
             = Inr None"
    by (simp add: equality_lookup_def sample_db_def)
  have 3: "\<exists>d. equality_lookup (students_collection sample_db) ''email''
                 (JStr ''ada@example.org'') = Inr (Some d)"
    by (simp add: equality_lookup_def sample_db_def)
  have a: "add_student equality_lookup sample_db
     (JObj [(''student_id'', JStr ''S1''), (''first_name'', JStr ''Alan''),
            (''last_name'', JStr ''Turing''), (''email'', JStr ''ada@example.org'')]) =
     (sample_db, Inr (Error 409 (Msg ''Student with this ID already exists'')))"
    using add_student_conflict
            [of "[(''student_id'', JStr ''S1''), (''first_name'', JStr ''Alan''),
                  (''last_name'', JStr ''Turing''), (''email'', JStr ''ada@example.org'')]"
                "JStr ''S1''" "JStr ''ada@example.org''" equality_lookup sample_db] 1
    by (auto simp add: has_field_def)
  have b: "add_student equality_lookup sample_db
     (JObj [(''student_id'', JStr ''S2''), (''first_name'', JStr ''Alan''),
            (''last_name'', JStr ''Turing''), (''email'', JStr ''ada@example.org'')]) =
     (sample_db, Inr (Error 409 (Msg ''Student with this email already exists'')))"
    using add_student_conflict
            [of "[(''student_id'', JStr ''S2''), (''first_name'', JStr ''Alan''),
                  (''last_name'', JStr ''Turing''), (''email'', JStr ''ada@example.org'')]"
                "JStr ''S2''" "JStr ''ada@example.org''" equality_lookup sample_db] 2 3
    by (auto simp add: has_field_def)
  from a b show ?thesis by simp
qed

subsection \<open>Listing attendance by course and date\<close>

text \<open>
  A course identifier that the validator rejects is answered with 400 "Invalid
  course_id format" whatever the store holds and whatever the date string is; when the
  identifier passes, a date string that \<^verbatim>\<open>strptime\<close> does not parse is answered with
  400 "Invalid date format". The identifier check comes first. A string without
  whitespace that is not 24 hexadecimal digits is rejected.
\<close>

lemma get_attendance_invalid_id:
  assumes "fst (is_valid_objectId (JStr course_id) (oid_counter s)) = Inr False"
  shows "get_attendance_by_course_and_date s course_id date_str =
           Inr (Error 400 (Msg ''Invalid course_id format''))"
  using assms by (simp add: get_attendance_by_course_and_date_def)

lemma get_attendance_not_well_formed:
  assumes "\<not> well_formed_id (JStr course_id)" and "\<forall>c\<in>set course_id. \<not> is_space c"
  shows "get_attendance_by_course_and_date s course_id date_str =
           Inr (Error 400 (Msg ''Invalid course_id format''))"
proof (rule get_attendance_invalid_id)
  from assms(1) have "\<not> (length course_id = 24 \<and> (\<forall>c\<in>set course_id. hexval c \<noteq> None))"
    by (simp add: well_formed_id_def list_all_iff)
  then show "fst (is_valid_objectId (JStr course_id) (oid_counter s)) = Inr False"
    by (simp add: is_valid_objectId_no_space [OF assms(2)])
qed

lemma get_attendance_invalid_date:
  assumes "fst (is_valid_objectId (JStr course_id) (oid_counter s)) = Inr True"
    and "\<forall>t. strptime (JStr date_str) \<noteq> Inr t"
  shows "get_attendance_by_course_and_date s course_id date_str =
           Inr (Error 400 (Msg ''Invalid date format. Use YYYY-MM-DD''))"
proof -
  from assms(2) obtain e where e: "strptime (JStr date_str) = Inl e"
    by (cases "strptime (JStr date_str)") auto
  then have "e = ValueError" by (rule strptime_str_error)
  with e have "list_by_course_and_date s course_id date_str = Inl ValueError"
    by (simp add: list_by_course_and_date_def)
  with assms(1) show ?thesis
    by (simp add: get_attendance_by_course_and_date_def)
qed

text \<open>
  When the identifier is accepted, the date parses and the next day exists, the
  listing is the stored records of that course whose date lies in the half-open
  interval from the parsed day to the next, each rendered with its four fields as
  strings.
\<close>

lemma get_attendance_by_course_and_date_records:
  assumes "ObjectId_validate (JStr course_id) = Inr cid"
    and "strptime (JStr date_str) = Inr start"
    and "add_one_day start = Inr end"
  shows "get_attendance_by_course_and_date s course_id date_str =
           Inr (Records (map render
                  (filter (in_course_and_range cid start end) (attendance_collection s))))"
  using assms
  by (simp add: get_attendance_by_course_and_date_def list_by_course_and_date_def
        is_valid_objectId_not_None ObjectId_not_None del: ObjectId_validate.simps strptime.simps)

text \<open>
  C7. The claim is that a course identifier that is not well-formed is answered with
  400. The 24-character string \<^verbatim>\<open>507f1f77 bcf86cd7 994390\<close> is not 24 hexadecimal
  digits, yet the validator accepts it (see C3) and the request is answered with 200
  and a listing.
\<close>

theorem get_attendance_accepts_spaced_id:
  "get_attendance_by_course_and_date sample_db spaced_id ''2024-03-05'' = Inr (Records [])
   \<and> \<not> well_formed_id (JStr spaced_id)"
proof -
  have 1: "ObjectId_validate (JStr spaced_id) =
             Inr [80, 127, 31, 119, 188, 248, 108, 215, 153, 67, 144]" by code_simp
  have 2: "add_one_day sample_day = Inr (sample_day\<lparr>day := 6\<rparr>)"
    by (simp add: add_one_day_def days_in_month_def sample_day_def)
  have 3: "\<not> well_formed_id (JStr spaced_id)" by code_simp
  from get_attendance_by_course_and_date_records [OF 1 sample_date 2, of sample_db] 3
  show ?thesis by (simp add: sample_db_attendance)
qed

text \<open>Every parsed date is a valid datetime at midnight.\<close>

lemma digit_bound: "is_digit c \<Longrightarrow> digit c \<le> 9"
  by (auto simp add: is_digit_def digit_def)

lemma digit_19: "c \<in> set ''123456789'' \<Longrightarrow> 1 \<le> digit c \<and> digit c \<le> 9"
  by (auto simp add: digit_def)

lemma digit_012: "c \<in> set ''012'' \<Longrightarrow> digit c \<le> 2"
  by (auto simp add: digit_def)

lemma digit_01: "c \<in> set ''01'' \<Longrightarrow> digit c \<le> 1"
  by (auto simp add: digit_def)

lemma digit_12: "c \<in> set ''12'' \<Longrightarrow> 1 \<le> digit c \<and> digit c \<le> 2"
  by (auto simp add: digit_def)

lemma match_Y_bound:
  assumes "match_Y s = Some (y, r)"
  shows "y \<le> 9999"
proof (cases s rule: match_Y.cases)
  case (1 a b c d rest)
  with assms have dg: "is_digit a" "is_digit b" "is_digit c" "is_digit d"
    and y: "y = 1000 * digit a + 100 * digit b + 10 * digit c + digit d"
    by (simp_all split: if_splits)
  from dg have "digit a \<le> 9" "digit b \<le> 9" "digit c \<le> 9" "digit d \<le> 9"
    by (simp_all add: digit_bound)
  with y show ?thesis by linarith
qed (use assms in simp_all)

lemma match_m_bound:
  assumes "match_m s = Some (m, r)"
  shows "1 \<le> m \<and> m \<le> 12"
proof (cases s rule: match_m.cases)
  case (1 a b rest)
  from assms [unfolded 1 match_m.simps]
  consider "b \<in> set ''012''" "m = 10 + digit b"
    | "b \<in> set ''123456789''" "m = digit b"
    | "a \<in> set ''123456789''" "m = digit a"
    by (simp only: split: if_splits) blast+
  then show ?thesis
    by cases (use digit_012 digit_19 in force)+
next
  case (2 a)
  from assms [unfolded 2 match_m.simps]
  have "a \<in> set ''123456789''" "m = digit a"
    by (simp_all only: split: if_splits) blast+
  then show ?thesis using digit_19 by force
qed (use assms in simp_all)

lemma match_d_bound:
  assumes "match_d s = Some (d, r)"
  shows "1 \<le> d \<and> d \<le> 31"
proof (cases s rule: match_d.cases)
  case (1 a b rest)
  from assms [unfolded 1 match_d.simps]
  consider "b \<in> set ''01''" "d = 30 + digit b"
    | "a \<in> set ''12''" "is_digit b" "d = 10 * digit a + digit b"
    | "b \<in> set ''123456789''" "d = digit b"
    | "a \<in> set ''123456789''" "d = digit a"
    by (simp only: split: if_splits) blast+
  then show ?thesis
  proof cases
    case 1
    then show ?thesis using digit_01 by force
  next
    case 2
    from 2(1) have "1 \<le> digit a \<and> digit a \<le> 2" by (rule digit_12)
    moreover from 2(2) have "digit b \<le> 9" by (rule digit_bound)
    ultimately show ?thesis using 2(3) by linarith
  next
    case 3
    then show ?thesis using digit_19 by force
  next
    case 4
    then show ?thesis using digit_19 by force
  qed
next
  case (2 a)
  from assms [unfolded 2 match_d.simps]
  have "a \<in> set ''123456789''" "d = digit a"
    by (simp_all only: split: if_splits) blast+
  then show ?thesis using digit_19 by force
qed (use assms in simp_all)

lemma strptime_valid:
  assumes "strptime x = Inr t"
  shows "valid_datetime t \<and> hour t = 0 \<and> minute t = 0 \<and> second t = 0 \<and> microsecond t = 0"
proof (cases x)
  case (JStr s)
  with assms obtain y m d where ymd: "match_ymd s = Some (y, m, d)"
    and ok: "1 \<le> y" "d \<le> days_in_month y m"
    and t: "t = \<lparr>year = y, month = m, day = d,
                  hour = 0, minute = 0, second = 0, microsecond = 0\<rparr>"
    by (auto split: option.splits if_splits)
  from ymd obtain s1 s3 s4 s5 where "match_Y s = Some (y, s1)" "match_m s3 = Some (m, s4)"
      "match_d s5 = Some (d, [])"
    by (auto simp add: match_ymd_def split: option.splits if_splits)
  then have "y \<le> 9999 \<and> 1 \<le> m \<and> m \<le> 12 \<and> 1 \<le> d"
    using match_Y_bound match_m_bound match_d_bound by blast
  with ok t show ?thesis by (simp add: valid_datetime_def)
qed (use assms in simp_all)

text \<open>
  For a stored date that is a valid datetime, lying in the interval from a parsed day
  (at midnight) to the next day is the same as falling on that calendar day, whatever
  the time of day.
\<close>

lemma in_day_interval:
  assumes "strptime x = Inr start" and "add_one_day start = Inr end"
    and "valid_datetime t"
  shows "(dt_key start \<le> dt_key t \<and> dt_key t < dt_key end) =
           (year t = year start \<and> month t = month start \<and> day t = day start)"
proof -
  from strptime_valid [OF assms(1)]
  have v: "valid_datetime start" and z: "hour start = 0" "minute start = 0"
    "second start = 0" "microsecond start = 0" by simp_all
  have cs: "day start < days_in_month (year start) (month start) \<and>
             end = start\<lparr>day := day start + 1\<rparr>
      \<or> day start = days_in_month (year start) (month start) \<and> month start < 12 \<and>
             end = start\<lparr>month := month start + 1, day := 1\<rparr>
      \<or> day start = days_in_month (year start) (month start) \<and> month start = 12 \<and>
             end = start\<lparr>year := year start + 1, month := 1, day := 1\<rparr>"
    using assms(2) v
    by (auto simp add: add_one_day_def valid_datetime_def split: if_splits)
  then consider (d) "day start < days_in_month (year start) (month start)"
      "end = start\<lparr>day := day start + 1\<rparr>"
    | (m) "day start = days_in_month (year start) (month start)" "month start < 12"
      "end = start\<lparr>month := month start + 1, day := 1\<rparr>"
    | (y) "day start = days_in_month (year start) (month start)" "month start = 12"
      "end = start\<lparr>year := year start + 1, month := 1, day := 1\<rparr>"
    by blast
  note cases = this
  have eq: "a = b" if "a < Suc b" and "b \<le> a" for a b :: nat
    using that by arith
  from cases show ?thesis
  proof cases
    case d
    then show ?thesis using z by (auto simp add: dt_key_def)
  next
    case m
    then show ?thesis using z assms(3)
      by (auto simp add: dt_key_def valid_datetime_def dest: eq)
  next
    case y
    then show ?thesis using z assms(3)
      by (auto simp add: dt_key_def valid_datetime_def days_in_month_def)
  qed
qed

lemma get_attendance_by_course_and_date_day:
  assumes "ObjectId_validate (JStr course_id) = Inr cid"
    and "strptime (JStr date_str) = Inr start"
    and "add_one_day start = Inr end"
    and "\<forall>r \<in> set (attendance_collection s). valid_datetime (att_date r)"
  shows "get_attendance_by_course_and_date s course_id date_str =
           Inr (Records (map render
                  (filter (\<lambda>r. att_course_id r = cid \<and> year (att_date r) = year start \<and>
                                month (att_date r) = month start \<and> day (att_date r) = day start)
                     (attendance_collection s))))"
proof -
  have "filter (in_course_and_range cid start end) (attendance_collection s) =
        filter (\<lambda>r. att_course_id r = cid \<and> year (att_date r) = year start \<and>
                     month (att_date r) = month start \<and> day (att_date r) = day start)
          (attendance_collection s)"
  proof (rule filter_cong [OF refl])
    fix r
    assume "r \<in> set (attendance_collection s)"
    with assms(4) have "valid_datetime (att_date r)" by blast
    from in_day_interval [OF assms(2) assms(3) this]
    show "in_course_and_range cid start end r =
            (att_course_id r = cid \<and> year (att_date r) = year start \<and>
             month (att_date r) = month start \<and> day (att_date r) = day start)"
      by (auto simp add: in_course_and_range_def)
  qed
  with get_attendance_by_course_and_date_records [OF assms(1) assms(2) assms(3), of s]
  show ?thesis by simp
qed

text \<open>The next day is missing for exactly one parsed date, the last one.\<close>

lemma add_one_day_fails:
  assumes "strptime x = Inr start"
  shows "(add_one_day start = Inl e) =
           (e = OverflowError \<and> year start = 9999 \<and> month start = 12 \<and> day start = 31)"
  using strptime_valid [OF assms]
  by (auto simp add: add_one_day_def valid_datetime_def days_in_month_def split: if_splits)

text \<open>
  C5. The claim is that every date string that parses gives the records of that day.
  The last day \<^verbatim>\<open>9999-12-31\<close> parses, but adding one day to it raises
  \<^verbatim>\<open>OverflowError\<close>, which \<^verbatim>\<open>except ValueError\<close> does not catch: the handler is left
  by the exception, whatever the store holds.
\<close>

theorem get_attendance_last_day_overflow:
  "get_attendance_by_course_and_date s sample_course ''9999-12-31'' = Inl OverflowError"
proof -
  have 1: "is_valid_objectId (JStr sample_course) (oid_counter s) = (Inr True, oid_counter s)"
    by (simp add: is_valid_objectId_not_None sample_course_ObjectId
          del: ObjectId_validate.simps)
  have 2: "strptime (JStr ''9999-12-31'') =
             Inr \<lparr>year = 9999, month = 12, day = 31,
                  hour = 0, minute = 0, second = 0, microsecond = 0\<rparr>"
    by (simp add: match_ymd_def is_digit_def digit_def days_in_month_def is_leap_def)
  have 3: "add_one_day \<lparr>year = 9999, month = 12, day = 31,
                  hour = 0, minute = 0, second = 0, microsecond = 0\<rparr> = Inl OverflowError"
    by (simp add: add_one_day_def days_in_month_def)
  show ?thesis
    by (simp add: get_attendance_by_course_and_date_def list_by_course_and_date_def 1 2 3
          del: strptime.simps)
qed

subsection \<open>Marking attendance: the request-level checks\<close>

text \<open>
  C10. A \<^verbatim>\<open>POST /attendance\<close> body that holds \<^verbatim>\<open>course_id\<close> and \<^verbatim>\<open>date\<close> and whose
  \<^verbatim>\<open>records\<close> is the empty array is answered with 400 "Missing required fields" and
  the store is unchanged, exactly as when \<^verbatim>\<open>records\<close> is absent.
\<close>

theorem mark_attendance_empty_records_rejected:
  assumes "map_of kvs ''course_id'' = Some c" and "map_of kvs ''date'' = Some d"
    and "map_of kvs ''records'' = Some (JList []) \<or> map_of kvs ''records'' = None"
  shows "mark_attendance s (JObj kvs) =
           (s, Inr (Error 400 (Msg ''Missing required fields: course_id, date, records'')))"
proof -
  from assms(1) have ne: "kvs \<noteq> []" by auto
  have "all_present (JObj kvs) [''course_id'', ''date'', ''records''] = Inr False"
    unfolding all_present_obj using assms(3) by (auto simp add: has_field_def)
  with ne show ?thesis by (simp add: mark_attendance_def)
qed

theorem mark_attendance_empty_records_rejected_witness:
  "mark_attendance sample_db
     (JObj [(''course_id'', JStr sample_course), (''date'', JStr ''2024-03-05''),
            (''records'', JList [])]) =
   (sample_db, Inr (Error 400 (Msg ''Missing required fields: course_id, date, records'')))"
  by (rule mark_attendance_empty_records_rejected
        [of _ "JStr sample_course" "JStr ''2024-03-05''"]) simp_all

subsection \<open>Marking attendance: one entry\<close>



lemma mark_one_record_checked:
  assumes "map_of r ''student_id'' = Some sv" and "truthy sv"
    and "map_of r ''status'' = Some st" and "truthy st"
  shows "mark_one_record c dt (JObj r) s =
     (case ObjectId_validate sv of
        Inl e \<Rightarrow> Inr (Inl (Error 400 (MsgF ''Invalid student_id: '' sv)))
      | Inr sid \<Rightarrow>
     (case find_one_by_id (students_collection s) sid of
        None \<Rightarrow> Inr (Inl (Error 404 (MsgF ''Student not found: '' sv)))
      | Some _ \<Rightarrow>
     (case fst (ObjectId c (oid_counter s)) of
        Inl e \<Rightarrow> Inl e
      | Inr cid \<Rightarrow>
     (case find_one_by_id (courses_collection s) cid of
        None \<Rightarrow> Inr (Inl (Error 404 (MsgF ''Course not found: '' c)))
      | Some _ \<Rightarrow>
          (let nt = (case map_of r ''notes'' of None \<Rightarrow> JStr [] | Some v \<Rightarrow> v)
           in case update_one_upsert (attendance_collection s) (oid_counter s)
                     (sid, cid, dt) st nt of
                Inl e \<Rightarrow> Inl e
              | Inr up \<Rightarrow>
                  Inr (Inr (s\<lparr>attendance_collection := fst up, oid_counter := snd up\<rparr>,
                            \<lparr>p_student_id = sv, p_course_id = c, p_date = isoformat dt,
                             p_status = st, p_notes = nt\<rparr>)))))))"
proof -
  have ap: "all_present (JObj r) [''student_id'', ''status''] = Inr True"
    using assms by (simp add: all_present_obj has_field_def)
  from assms(2) have nn: "sv \<noteq> JNull" by auto
  show ?thesis
    by (simp add: mark_one_record_def ap assms(1,3) is_valid_objectId_not_None [OF nn]
          ObjectId_not_None [OF nn] Let_def
          split: sum.splits option.splits prod.splits del: ObjectId_validate.simps)
qed

lemma mark_one_record_error:
  "mark_one_record c dt r s = Inr (Inl resp) \<Longrightarrow> \<exists>code m. resp = Error code m"
  by (auto simp add: mark_one_record_def split: sum.splits bool.splits option.splits prod.splits)





subsection \<open>Marking attendance: the batch\<close>

lemma strptime_truthy: "strptime d = Inr dt \<Longrightarrow> truthy d"
  by (cases d) (auto simp add: match_ymd_def)

lemma mark_attendance_obj:
  assumes "map_of kvs ''course_id'' = Some c" and "truthy c"
    and "fst (is_valid_objectId c (oid_counter s)) = Inr True"
    and "map_of kvs ''date'' = Some d" and "strptime d = Inr dt"
    and "map_of kvs ''records'' = Some (JList recs)" and "recs \<noteq> []"
  shows "mark_attendance s (JObj kvs) = mark_records c dt recs s []"
proof -
  from assms(1) have ne: "kvs \<noteq> []" by auto
  have ap: "all_present (JObj kvs) [''course_id'', ''date'', ''records''] = Inr True"
    using assms strptime_truthy [OF assms(5)] by (simp add: all_present_obj has_field_def)
  show ?thesis
    using ne assms by (simp add: mark_attendance_def ap del: strptime.simps)
qed

lemma mark_records_append:
  "mark_records c dt xs s ps = (s1, Inr (Saved ps1)) \<Longrightarrow>
     mark_records c dt (xs @ ys) s ps = mark_records c dt ys s1 ps1"
proof (induction xs arbitrary: s ps)
  case Nil
  then show ?case by simp
next
  case (Cons x xs)
  show ?case
  proof (cases "mark_one_record c dt x s")
    case (Inl e)
    with Cons.prems show ?thesis by simp
  next
    case (Inr res)
    show ?thesis
    proof (cases res)
      case (Inl resp)
      with Inr obtain code m where "resp = Error code m"
        using mark_one_record_error by blast
      with Inr Inl Cons.prems show ?thesis by simp
    next
      case (Inr sp)
      obtain s' p where sp: "sp = (s', p)" by (cases sp)
      with \<open>mark_one_record c dt x s = Inr res\<close> Inr Cons.prems
      have "mark_records c dt xs s' (ps @ [p]) = (s1, Inr (Saved ps1))" by simp
      from Cons.IH [OF this] \<open>mark_one_record c dt x s = Inr res\<close> Inr sp
      show ?thesis by simp
    qed
  qed
qed

text \<open>
  C2. When the entries before some entry of a batch all succeed and that entry fails
  (with an error response or with an exception), the call returns that failure
  together with the store as the earlier entries left it: their upserts stay, and the
  entries after the failing one play no part in the result. A later
  \<^verbatim>\<open>GET /attendance\<close> on the returned store lists the attendance records as the earlier
  entries left them.
\<close>

theorem mark_attendance_stops_at_first_failure:
  assumes "map_of kvs ''course_id'' = Some c" and "truthy c"
    and "fst (is_valid_objectId c (oid_counter s)) = Inr True"
    and "map_of kvs ''date'' = Some d" and "strptime d = Inr dt"
    and "map_of kvs ''records'' = Some (JList (pre @ bad # post))"
    and "mark_records c dt pre s [] = (s1, Inr (Saved ps))"
  shows "(mark_one_record c dt bad s1 = Inr (Inl err) \<longrightarrow>
            mark_attendance s (JObj kvs) = (s1, Inr err))
       \<and> (mark_one_record c dt bad s1 = Inl e \<longrightarrow>
            mark_attendance s (JObj kvs) = (s1, Inl e))
       \<and> ((\<forall>sp. mark_one_record c dt bad s1 \<noteq> Inr (Inr sp)) \<longrightarrow>
            get_all_attendance (fst (mark_attendance s (JObj kvs))) =
              Inr (Records (map render (attendance_collection s1))))"
proof -
  have "mark_attendance s (JObj kvs) = mark_records c dt (pre @ bad # post) s []"
    using assms(1-6) by (intro mark_attendance_obj) simp_all
  also have "\<dots> = mark_records c dt (bad # post) s1 ps"
    using assms(7) by (rule mark_records_append)
  finally have m: "mark_attendance s (JObj kvs) = mark_records c dt (bad # post) s1 ps" .
  have "fst (mark_records c dt (bad # post) s1 ps) = s1"
    if "\<forall>sp. mark_one_record c dt bad s1 \<noteq> Inr (Inr sp)"
    using that by (auto split: sum.splits)
  with m show ?thesis by (simp add: get_all_attendance_def)
qed

theorem mark_attendance_stops_at_first_failure_witness:
  "mark_attendance sample_db
     (JObj [(''course_id'', JStr sample_course), (''date'', JStr ''2024-03-05''),
            (''records'', JList
               [JObj [(''student_id'', JStr sample_student), (''status'', JStr ''present'')],
                JObj [(''student_id'', JStr unknown_id), (''status'', JStr ''present'')],
                JObj [(''student_id'', JStr sample_student), (''status'', JStr ''absent'')]])]) =
   (sample_db\<lparr>attendance_collection :=
       [\<lparr>att_id = new_oid 0, att_student_id = sample_student_oid,
         att_course_id = sample_course_oid, att_date = sample_day,
         att_status = JStr ''present'', att_notes = JStr []\<rparr>],
      oid_counter := Suc 0\<rparr>,
    Inr (Error 404 (MsgF ''Student not found: '' (JStr unknown_id))))
   \<and> get_all_attendance (fst (mark_attendance sample_db
     (JObj [(''course_id'', JStr sample_course), (''date'', JStr ''2024-03-05''),
            (''records'', JList
               [JObj [(''student_id'', JStr sample_student), (''status'', JStr ''present'')],
                JObj [(''student_id'', JStr unknown_id), (''status'', JStr ''present'')],
                JObj [(''student_id'', JStr sample_student), (''status'', JStr ''absent'')]])]))) =
     Inr (Records
       [\<lparr>v_id = ''000000000000000000000000'', v_student_id = ''507f1f77bcf86cd799439011'',
         v_course_id = ''507f191e810c19729de860ea'', v_date = ''2024-03-05T00:00:00'',
         v_status = JStr ''present'', v_notes = JStr []\<rparr>])"
proof -
  let ?s1 = "sample_db\<lparr>attendance_collection :=
       [\<lparr>att_id = new_oid 0, att_student_id = sample_student_oid,
         att_course_id = sample_course_oid, att_date = sample_day,
         att_status = JStr ''present'', att_notes = JStr []\<rparr>],
      oid_counter := Suc 0\<rparr>"
  let ?p = "\<lparr>p_student_id = JStr sample_student, p_course_id = JStr sample_course,
             p_date = isoformat sample_day, p_status = JStr ''present'', p_notes = JStr []\<rparr>"
  let ?body = "[(''course_id'', JStr sample_course), (''date'', JStr ''2024-03-05''),
            (''records'', JList
               [JObj [(''student_id'', JStr sample_student), (''status'', JStr ''present'')],
                JObj [(''student_id'', JStr unknown_id), (''status'', JStr ''present'')],
                JObj [(''student_id'', JStr sample_student), (''status'', JStr ''absent'')]])]"
  have s0: "sample_student \<noteq> []" by (simp add: sample_student_def)
  have c0: "sample_course \<noteq> []" by (simp add: sample_course_def)
  have u0: "unknown_id \<noteq> []" by (simp add: unknown_id_def)
  have v: "fst (is_valid_objectId (JStr sample_course) (oid_counter sample_db)) = Inr True"
    by (simp add: is_valid_objectId_not_None sample_course_ObjectId
          del: ObjectId_validate.simps)
  have pre: "mark_records (JStr sample_course) sample_day
               [JObj [(''student_id'', JStr sample_student), (''status'', JStr ''present'')]]
               sample_db [] = (?s1, Inr (Saved [?p]))"
    using sample_db_student sample_db_course
    by (auto simp add: mark_one_record_checked [where sv = "JStr sample_student"
                     and st = "JStr ''present''"]
          s0 sample_student_ObjectId sample_course_ObjectId sample_db_attendance
          ObjectId_not_None update_one_upsert_def apply_upsert_def Let_def
          simp del: ObjectId_validate.simps)
  have bad: "mark_one_record (JStr sample_course) sample_day
               (JObj [(''student_id'', JStr unknown_id), (''status'', JStr ''present'')]) ?s1 =
             Inr (Inl (Error 404 (MsgF ''Student not found: '' (JStr unknown_id))))"
    using sample_db_unknown(1)
    by (simp add: mark_one_record_checked [where sv = "JStr unknown_id"
                     and st = "JStr ''present''"]
          u0 unknown_id_ObjectId del: ObjectId_validate.simps)
  have r: "render \<lparr>att_id = new_oid 0, att_student_id = sample_student_oid,
         att_course_id = sample_course_oid, att_date = sample_day,
         att_status = JStr ''present'', att_notes = JStr []\<rparr> =
       \<lparr>v_id = ''000000000000000000000000'', v_student_id = ''507f1f77bcf86cd799439011'',
         v_course_id = ''507f191e810c19729de860ea'', v_date = ''2024-03-05T00:00:00'',
         v_status = JStr ''present'', v_notes = JStr []\<rparr>"
    by code_simp
  from bad have nb: "\<forall>sp. mark_one_record (JStr sample_course) sample_day
               (JObj [(''student_id'', JStr unknown_id), (''status'', JStr ''present'')]) ?s1
               \<noteq> Inr (Inr sp)" by simp
  show ?thesis
    using mark_attendance_stops_at_first_failure
            [where c = "JStr sample_course" and d = "JStr ''2024-03-05''" and dt = sample_day
               and pre = "[JObj [(''student_id'', JStr sample_student),
                                 (''status'', JStr ''present'')]]"
               and bad = "JObj [(''student_id'', JStr unknown_id), (''status'', JStr ''present'')]"
               and post = "[JObj [(''student_id'', JStr sample_student),
                                  (''status'', JStr ''absent'')]]"
               and s = sample_db and ?s1.0 = ?s1 and ps = "[?p]"
               and err = "Error 404 (MsgF ''Student not found: '' (JStr unknown_id))"
               and kvs = ?body,
             OF _ _ v _ sample_date _ pre]
          bad nb c0 r
    by (simp add: get_all_attendance_def)
qed

subsection \<open>The upsert\<close>

lemma update_first_keeps:
  assumes "\<And>x. g (f x) = g x"
  shows "map g (update_first P f xs) = map g xs"
  using assms by (induction xs) simp_all

lemma update_first_unique:
  assumes "distinct (map g xs)" and "\<And>x. g (f x) = g x"
  shows "update_first (\<lambda>x. g x = k) f xs = map (\<lambda>x. if g x = k then f x else x) xs"
  using assms(1)
proof (induction xs)
  case Nil
  show ?case by simp
next
  case (Cons x xs)
  show ?case
  proof (cases "g x = k")
    case True
    with Cons.prems have "\<forall>y\<in>set xs. g y \<noteq> k" by (auto simp add: image_iff)
    then have "map (\<lambda>x. if g x = k then f x else x) xs = xs"
      by (induction xs) simp_all
    with True show ?thesis by simp
  next
    case False
    with Cons show ?thesis by simp
  qed
qed

lemma filter_unique_key:
  assumes "distinct (map g xs)" and "x \<in> set xs"
  shows "filter (\<lambda>y. g y = g x) xs = [x]"
  using assms
proof (induction xs)
  case Nil
  then show ?case by simp
next
  case (Cons a xs)
  show ?case
  proof (cases "a = x")
    case True
    with Cons.prems have "\<forall>y\<in>set xs. g y \<noteq> g x" by (auto simp add: image_iff)
    then have "filter (\<lambda>y. g y = g x) xs = []" by (simp add: filter_empty_conv)
    with True show ?thesis by simp
  next
    case False
    with Cons.prems have "x \<in> set xs" and "g a \<noteq> g x" by auto
    with Cons show ?thesis by simp
  qed
qed

lemma triple_set_fields [simp]:
  "triple (r\<lparr>att_status := st, att_notes := nt\<rparr>) = triple r"
  by (simp add: triple_def)

lemma upsert_hit:
  assumes "key \<in> triple ` set coll" and "distinct (map triple coll)"
  shows "apply_upsert coll n key st nt =
           (map (\<lambda>r. if triple r = key then r\<lparr>att_status := st, att_notes := nt\<rparr> else r) coll,
            n)"
proof -
  from assms(1) have "\<exists>r\<in>set coll. triple r = key" by auto
  then show ?thesis
    using update_first_unique [of triple coll "\<lambda>r. r\<lparr>att_status := st, att_notes := nt\<rparr>" key]
      assms(2)
    by (simp add: apply_upsert_def)
qed

lemma upsert_miss:
  assumes "key \<notin> triple ` set coll"
  shows "apply_upsert coll n key st nt =
           (coll @ [\<lparr>att_id = new_oid n, att_student_id = fst key,
                     att_course_id = fst (snd key), att_date = snd (snd key),
                     att_status = st, att_notes = nt\<rparr>], Suc n)"
proof -
  from assms have "\<not> (\<exists>r\<in>set coll. triple r = key)" by auto
  then show ?thesis by (simp add: apply_upsert_def)
qed

lemma upsert_triples:
  "map triple (fst (apply_upsert coll n key st nt)) =
     (if key \<in> triple ` set coll then map triple coll else map triple coll @ [key])"
proof (cases "key \<in> triple ` set coll")
  case True
  then have "\<exists>r\<in>set coll. triple r = key" by auto
  then show ?thesis using True
    by (simp add: apply_upsert_def update_first_keeps)
next
  case False
  then show ?thesis by (simp add: upsert_miss triple_def)
qed

lemma upsert_distinct:
  "distinct (map triple coll) \<Longrightarrow>
     distinct (map triple (fst (apply_upsert coll n key st nt)))"
  by (simp add: upsert_triples)

lemma upsert_present:
  "key \<in> triple ` set (fst (apply_upsert coll n key st nt))"
proof -
  have "key \<in> set (map triple (fst (apply_upsert coll n key st nt)))"
    unfolding upsert_triples by auto
  then show ?thesis by simp
qed

lemma upsert_record:
  assumes "distinct (map triple coll)"
  shows "\<exists>r. filter (\<lambda>x. triple x = key) (fst (apply_upsert coll n key st nt)) = [r]
             \<and> att_status r = st \<and> att_notes r = nt"
proof -
  let ?coll' = "fst (apply_upsert coll n key st nt)"
  have d: "distinct (map triple ?coll')" using assms by (rule upsert_distinct)
  from upsert_present [of key coll n st nt]
  obtain r where r: "r \<in> set ?coll'" "triple r = key" by auto
  from filter_unique_key [OF d r(1)] r(2)
  have f: "filter (\<lambda>x. triple x = key) ?coll' = [r]" by simp
  have "att_status r = st \<and> att_notes r = nt"
  proof (cases "key \<in> triple ` set coll")
    case True
    let ?h = "\<lambda>r. if triple r = key then r\<lparr>att_status := st, att_notes := nt\<rparr> else r"
    have "?coll' = map ?h coll"
      by (simp add: upsert_hit [OF True assms])
    with r(1) have "r \<in> ?h ` set coll" by (simp only: set_map)
    then obtain r0 where "r = ?h r0" by (rule imageE)
    with r(2) have "r = r0\<lparr>att_status := st, att_notes := nt\<rparr>"
      by (cases "triple r0 = key") simp_all
    then show ?thesis by simp
  next
    case False
    have "?coll' = coll @ [\<lparr>att_id = new_oid n, att_student_id = fst key,
                     att_course_id = fst (snd key), att_date = snd (snd key),
                     att_status = st, att_notes = nt\<rparr>]"
      by (simp add: upsert_miss [OF False])
    with r(1) have "r \<in> set coll \<or> r = \<lparr>att_id = new_oid n, att_student_id = fst key,
                     att_course_id = fst (snd key), att_date = snd (snd key),
                     att_status = st, att_notes = nt\<rparr>"
      by auto
    moreover from False r(2) have "r \<notin> set coll" by auto
    ultimately show ?thesis by auto
  qed
  with f show ?thesis by blast
qed

text \<open>
  The driver call: it applies the upsert exactly when status and notes can be encoded,
  and stores nothing otherwise. Strings can always be encoded.
\<close>

lemma update_one_upsert_ok:
  assumes "bson_error st = None" and "bson_error nt = None"
  shows "update_one_upsert coll n key st nt = Inr (apply_upsert coll n key st nt)"
  using assms by (simp add: update_one_upsert_def)

lemma update_one_upsert_Inr:
  assumes "update_one_upsert coll n key st nt = Inr up"
  shows "up = apply_upsert coll n key st nt \<and> bson_error st = None \<and> bson_error nt = None"
  using assms by (auto simp add: update_one_upsert_def split: option.splits)

lemma update_one_upsert_Inl:
  "(update_one_upsert coll n key st nt = Inl e) =
     (bson_error st = Some e \<or> bson_error st = None \<and> bson_error nt = Some e)"
  by (auto simp add: update_one_upsert_def split: option.splits)

subsection \<open>Marking attendance: one record per triple\<close>

lemma mark_one_record_success:
  assumes "mark_one_record c dt r s = Inr (Inr (s', p))"
  shows "\<exists>key st nt.
           s' = s\<lparr>attendance_collection :=
                     fst (apply_upsert (attendance_collection s) (oid_counter s) key st nt),
                   oid_counter :=
                     snd (apply_upsert (attendance_collection s) (oid_counter s) key st nt)\<rparr>"
  using assms
  by (auto simp add: mark_one_record_def
        split: sum.splits bool.splits option.splits prod.splits
        dest!: update_one_upsert_Inr)
     (metis fst_conv snd_conv)

lemma mark_records_distinct:
  "distinct (map triple (attendance_collection s)) \<Longrightarrow>
     distinct (map triple (attendance_collection (fst (mark_records c dt rs s ps))))"
proof (induction rs arbitrary: s ps)
  case Nil
  then show ?case by simp
next
  case (Cons r rs)
  show ?case
  proof (cases "mark_one_record c dt r s")
    case (Inl e)
    with Cons.prems show ?thesis by simp
  next
    case (Inr res)
    show ?thesis
    proof (cases res)
      case (Inl resp)
      with Inr Cons.prems show ?thesis by simp
    next
      case (Inr sp)
      obtain s' p where sp: "sp = (s', p)" by (cases sp)
      with \<open>mark_one_record c dt r s = Inr res\<close> Inr
      have m: "mark_one_record c dt r s = Inr (Inr (s', p))" by simp
      from mark_one_record_success [OF m] Cons.prems
      have "distinct (map triple (attendance_collection s'))"
        by (auto simp add: upsert_distinct)
      from Cons.IH [OF this] m show ?thesis by simp
    qed
  qed
qed

lemma mark_attendance_distinct:
  assumes "distinct (map triple (attendance_collection s))"
  shows "distinct (map triple (attendance_collection (fst (mark_attendance s data))))"
  using assms mark_records_distinct [OF assms]
  by (simp add: mark_attendance_def split: sum.splits bool.splits del: strptime.simps)

lemma mark_attendance_single:
  assumes "ObjectId_validate sv = Inr sid" and "truthy sv"
    and "ObjectId_validate c = Inr cid" and "truthy c"
    and "strptime d = Inr dt"
    and "map_of r ''student_id'' = Some sv"
    and "map_of r ''status'' = Some st" and "truthy st"
    and "find_one_by_id (students_collection s) sid \<noteq> None"
    and "find_one_by_id (courses_collection s) cid \<noteq> None"
    and "bson_error st = None"
    and "bson_error (case map_of r ''notes'' of None \<Rightarrow> JStr [] | Some v \<Rightarrow> v) = None"
  shows "mark_attendance s
           (JObj [(''course_id'', c), (''date'', d), (''records'', JList [JObj r])]) =
         (let nt = (case map_of r ''notes'' of None \<Rightarrow> JStr [] | Some v \<Rightarrow> v);
              up = apply_upsert (attendance_collection s) (oid_counter s)
                     (sid, cid, dt) st nt
          in (s\<lparr>attendance_collection := fst up, oid_counter := snd up\<rparr>,
              Inr (Saved [\<lparr>p_student_id = sv, p_course_id = c, p_date = isoformat dt,
                           p_status = st, p_notes = nt\<rparr>])))"
proof -
  from assms(4) have cn: "c \<noteq> JNull" by auto
  have v: "fst (is_valid_objectId c (oid_counter s)) = Inr True"
    using assms(3) by (simp add: is_valid_objectId_not_None [OF cn])
  have "mark_attendance s
          (JObj [(''course_id'', c), (''date'', d), (''records'', JList [JObj r])]) =
        mark_records c dt [JObj r] s []"
    using assms(4) v assms(5) by (intro mark_attendance_obj) simp_all
  also have "\<dots> =
         (let nt = (case map_of r ''notes'' of None \<Rightarrow> JStr [] | Some v \<Rightarrow> v);
              up = apply_upsert (attendance_collection s) (oid_counter s)
                     (sid, cid, dt) st nt
          in (s\<lparr>attendance_collection := fst up, oid_counter := snd up\<rparr>,
              Inr (Saved [\<lparr>p_student_id = sv, p_course_id = c, p_date = isoformat dt,
                           p_status = st, p_notes = nt\<rparr>])))"
    using assms(1,3,9,10)
    by (auto simp add: mark_one_record_checked [OF assms(6) assms(2) assms(7) assms(8)] Let_def
          ObjectId_not_None [OF cn] update_one_upsert_ok [OF assms(11) assms(12)]
          simp del: ObjectId_validate.simps)
  finally show ?thesis .
qed

text \<open>
  C1. A store that holds at most one attendance record per (student, course, date)
  triple still does after any \<^verbatim>\<open>mark_attendance\<close> call. Moreover, marking a triple of
  a known student and course with status "present" and then again with status "absent"
  makes the second call overwrite status and notes of the record in place (every
  other record, and the number of records, stay as they were), and leaves exactly one
  record for the triple, whose status is "absent".
\<close>

theorem mark_attendance_one_record_per_triple:
  assumes "distinct (map triple (attendance_collection s))"
  shows "distinct (map triple (attendance_collection (fst (mark_attendance s data))))
    \<and> (ObjectId_validate sv = Inr sid \<and> truthy sv \<and> ObjectId_validate c = Inr cid \<and> truthy c \<and>
       strptime d = Inr dt \<and>
       find_one_by_id (students_collection s) sid \<noteq> None \<and>
       find_one_by_id (courses_collection s) cid \<noteq> None \<longrightarrow>
       (let s1 = fst (mark_attendance s
                   (JObj [(''course_id'', c), (''date'', d),
                          (''records'', JList [JObj [(''student_id'', sv),
                                                     (''status'', JStr ''present'')]])]));
            s2 = fst (mark_attendance s1
                   (JObj [(''course_id'', c), (''date'', d),
                          (''records'', JList [JObj [(''student_id'', sv),
                                                     (''status'', JStr ''absent'')]])]))
        in attendance_collection s2 =
             map (\<lambda>r. if triple r = (sid, cid, dt)
                      then r\<lparr>att_status := JStr ''absent'', att_notes := JStr []\<rparr> else r)
               (attendance_collection s1)
           \<and> (\<exists>r. filter (\<lambda>x. triple x = (sid, cid, dt)) (attendance_collection s2) = [r]
                  \<and> att_status r = JStr ''absent'')))"
proof (intro conjI impI)
  show "distinct (map triple (attendance_collection (fst (mark_attendance s data))))"
    using assms by (rule mark_attendance_distinct)
next
  assume h: "ObjectId_validate sv = Inr sid \<and> truthy sv \<and> ObjectId_validate c = Inr cid \<and> truthy c \<and>
       strptime d = Inr dt \<and>
       find_one_by_id (students_collection s) sid \<noteq> None \<and>
       find_one_by_id (courses_collection s) cid \<noteq> None"
  define up1 where "up1 = apply_upsert (attendance_collection s) (oid_counter s)
                            (sid, cid, dt) (JStr ''present'') (JStr [])"
  define s1 where "s1 = s\<lparr>attendance_collection := fst up1, oid_counter := snd up1\<rparr>"
  define up2 where "up2 = apply_upsert (attendance_collection s1) (oid_counter s1)
                            (sid, cid, dt) (JStr ''absent'') (JStr [])"
  define s2 where "s2 = s1\<lparr>attendance_collection := fst up2, oid_counter := snd up2\<rparr>"
  have m1: "fst (mark_attendance s
                   (JObj [(''course_id'', c), (''date'', d),
                          (''records'', JList [JObj [(''student_id'', sv),
                                                     (''status'', JStr ''present'')]])])) = s1"
    using h
    by (simp add: mark_attendance_single [where sv = sv and sid = sid and cid = cid
                    and dt = dt and st = "JStr ''present''"]
          Let_def s1_def up1_def del: ObjectId_validate.simps strptime.simps)
  have st1: "find_one_by_id (students_collection s1) sid \<noteq> None"
            "find_one_by_id (courses_collection s1) cid \<noteq> None"
    using h by (simp_all add: s1_def)
  have m2: "fst (mark_attendance s1
                   (JObj [(''course_id'', c), (''date'', d),
                          (''records'', JList [JObj [(''student_id'', sv),
                                                     (''status'', JStr ''absent'')]])])) = s2"
    using h st1
    by (simp add: mark_attendance_single [where sv = sv and sid = sid and cid = cid
                    and dt = dt and st = "JStr ''absent''"]
          Let_def s2_def up2_def del: ObjectId_validate.simps strptime.simps)
  have a1: "attendance_collection s1 = fst up1" by (simp add: s1_def)
  have d1: "distinct (map triple (attendance_collection s1))"
    unfolding a1 up1_def using assms by (rule upsert_distinct)
  have k1: "(sid, cid, dt) \<in> triple ` set (attendance_collection s1)"
    unfolding a1 up1_def by (rule upsert_present)
  have a2: "attendance_collection s2 =
             map (\<lambda>r. if triple r = (sid, cid, dt)
                      then r\<lparr>att_status := JStr ''absent'', att_notes := JStr []\<rparr> else r)
               (attendance_collection s1)"
    by (simp add: s2_def up2_def upsert_hit [OF k1 d1])
  have "attendance_collection s2 = fst up2" by (simp add: s2_def)
  with upsert_record [OF d1, of "(sid, cid, dt)" "oid_counter s1" "JStr ''absent''" "JStr []"]
  have r2: "\<exists>r. filter (\<lambda>x. triple x = (sid, cid, dt)) (attendance_collection s2) = [r]
                  \<and> att_status r = JStr ''absent''"
    by (auto simp add: up2_def)
  from a2 r2 show "let s1 = fst (mark_attendance s
                   (JObj [(''course_id'', c), (''date'', d),
                          (''records'', JList [JObj [(''student_id'', sv),
                                                     (''status'', JStr ''present'')]])]));
            s2 = fst (mark_attendance s1
                   (JObj [(''course_id'', c), (''date'', d),
                          (''records'', JList [JObj [(''student_id'', sv),
                                                     (''status'', JStr ''absent'')]])]))
        in attendance_collection s2 =
             map (\<lambda>r. if triple r = (sid, cid, dt)
                      then r\<lparr>att_status := JStr ''absent'', att_notes := JStr []\<rparr> else r)
               (attendance_collection s1)
           \<and> (\<exists>r. filter (\<lambda>x. triple x = (sid, cid, dt)) (attendance_collection s2) = [r]
                  \<and> att_status r = JStr ''absent'')"
    unfolding Let_def m1 m2 by simp
qed

lemma sample_mark_present:
  "mark_attendance sample_db
     (JObj [(''course_id'', JStr sample_course), (''date'', JStr ''2024-03-05''),
            (''records'', JList [JObj [(''student_id'', JStr sample_student),
                                       (''status'', JStr ''present'')]])]) =
   (sample_db\<lparr>attendance_collection :=
       [\<lparr>att_id = new_oid 0, att_student_id = sample_student_oid,
         att_course_id = sample_course_oid, att_date = sample_day,
         att_status = JStr ''present'', att_notes = JStr []\<rparr>],
      oid_counter := Suc 0\<rparr>,
    Inr (Saved [\<lparr>p_student_id = JStr sample_student, p_course_id = JStr sample_course,
                 p_date = isoformat sample_day, p_status = JStr ''present'',
                 p_notes = JStr []\<rparr>]))"
proof -
  have s0: "sample_student \<noteq> []" by (simp add: sample_student_def)
  have c0: "sample_course \<noteq> []" by (simp add: sample_course_def)
  show ?thesis
    using sample_db_student sample_db_course s0 c0
    by (simp add: mark_attendance_single [OF sample_student_ObjectId _ sample_course_ObjectId
                    _ sample_date, where st = "JStr ''present''"]
          Let_def upsert_miss sample_db_attendance)
qed

theorem mark_attendance_one_record_per_triple_witness:
  "(let s1 = fst (mark_attendance sample_db
                   (JObj [(''course_id'', JStr sample_course), (''date'', JStr ''2024-03-05''),
                          (''records'', JList [JObj [(''student_id'', JStr sample_student),
                                                     (''status'', JStr ''present'')]])]));
        s2 = fst (mark_attendance s1
                   (JObj [(''course_id'', JStr sample_course), (''date'', JStr ''2024-03-05''),
                          (''records'', JList [JObj [(''student_id'', JStr sample_student),
                                                     (''status'', JStr ''absent'')]])]))
    in distinct (map triple (attendance_collection s1))
       \<and> attendance_collection s2 =
           [\<lparr>att_id = new_oid 0, att_student_id = sample_student_oid,
             att_course_id = sample_course_oid, att_date = sample_day,
             att_status = JStr ''absent'', att_notes = JStr []\<rparr>])"
proof -
  have s0: "sample_student \<noteq> []" by (simp add: sample_student_def)
  have c0: "sample_course \<noteq> []" by (simp add: sample_course_def)
  have d0: "distinct (map triple (attendance_collection sample_db))"
    by (simp add: sample_db_attendance)
  show ?thesis
    using mark_attendance_one_record_per_triple
            [OF d0, where sv = "JStr sample_student" and sid = sample_student_oid
               and c = "JStr sample_course" and cid = sample_course_oid
               and d = "JStr ''2024-03-05''" and dt = sample_day
               and data = "JObj [(''course_id'', JStr sample_course),
                                 (''date'', JStr ''2024-03-05''),
                                 (''records'', JList [JObj [(''student_id'', JStr sample_student),
                                                     (''status'', JStr ''present'')]])]"]
          sample_student_ObjectId sample_course_ObjectId sample_date
          sample_db_student sample_db_course s0 c0
    by (simp add: Let_def sample_mark_present triple_def
          del: ObjectId_validate.simps strptime.simps)
qed

subsection \<open>Marking attendance twice\<close>




end
